theory Spec2Isabelle
  imports Complex_Main "HOL-Library.Multiset"
begin

section \<open>JavaScript values used by the pipeline\<close>

text \<open>
  A JavaScript \<^verbatim>\<open>number\<close> is modelled as a finite real with exact arithmetic: the
  validator and the cleaner only compare numbers, test them for integrality and round them.
  \<^verbatim>\<open>NaN\<close>, the infinities and the rounding of IEEE doubles are outside the model.
\<close>

type_synonym jsnumber = real

text \<open>
  The field \<^verbatim>\<open>drawDate: Date | string\<close>. A \<^verbatim>\<open>Date\<close> object is its time value in
  milliseconds since the epoch, \<open>None\<close> for an \<^verbatim>\<open>Invalid Date\<close> (time value NaN).
\<close>

datatype date_input = DateObj "int option" | DateStr string

text \<open>
  What the JavaScript runtime supplies: the parser behind \<^verbatim>\<open>new Date(string)\<close>, the
  clock read by \<^verbatim>\<open>new Date()\<close>, and \<^verbatim>\<open>Date.prototype.toDateString\<close> (which depends on
  the local time zone). They are parameters of the model.
\<close>

record js_runtime =
  rt_parse :: "string \<Rightarrow> int option"
  rt_now :: int
  rt_toDateString :: "int option \<Rightarrow> string"

text \<open>\<^verbatim>\<open>new Date(x)\<close>, as its time value: a \<^verbatim>\<open>Date\<close> is copied, a string is parsed.\<close>

fun newDate :: "js_runtime \<Rightarrow> date_input \<Rightarrow> int option" where
  "newDate rt (DateObj t) = t"
| "newDate rt (DateStr s) = rt_parse rt s"

text \<open>\<^verbatim>\<open>String.prototype.trim\<close> on the ASCII white space and line terminators.\<close>

definition isWhiteSpace :: "char \<Rightarrow> bool" where
  "isWhiteSpace c \<longleftrightarrow> c \<in> set [CHR 0x09, CHR 0x0A, CHR 0x0B, CHR 0x0C, CHR 0x0D, CHR '' '']"

definition trim :: "string \<Rightarrow> string" where
  "trim s = rev (dropWhile isWhiteSpace (rev (dropWhile isWhiteSpace s)))"

text \<open>\<^verbatim>\<open>Math.round\<close>: the nearest integer, a tie going up.\<close>

definition Math_round :: "jsnumber \<Rightarrow> jsnumber" where
  "Math_round x = of_int \<lfloor>x + 1 / 2\<rfloor>"

section \<open>The game catalog (constants.ts)\<close>

record game_config =
  name :: string
  description :: string
  maxNumber :: nat
  numberCount :: nat
  drawDays :: "string list"

definition LOTTERY_GAMES :: "(string \<times> game_config) list" where
  "LOTTERY_GAMES =
    [(''6/42'', \<lparr>name = ''6/42'', description = ''Lotto 6/42'', maxNumber = 42, numberCount = 6,
        drawDays = [''Tuesday'', ''Thursday'', ''Saturday'']\<rparr>),
     (''6/45'', \<lparr>name = ''6/45'', description = ''Mega Lotto 6/45'', maxNumber = 45, numberCount = 6,
        drawDays = [''Monday'', ''Wednesday'', ''Friday'']\<rparr>),
     (''6/49'', \<lparr>name = ''6/49'', description = ''Super Lotto 6/49'', maxNumber = 49, numberCount = 6,
        drawDays = [''Tuesday'', ''Thursday'', ''Sunday'']\<rparr>),
     (''6/55'', \<lparr>name = ''6/55'', description = ''Grand Lotto 6/55'', maxNumber = 55, numberCount = 6,
        drawDays = [''Monday'', ''Wednesday'', ''Saturday'']\<rparr>),
     (''6/58'', \<lparr>name = ''6/58'', description = ''Ultra Lotto 6/58'', maxNumber = 58, numberCount = 6,
        drawDays = [''Tuesday'', ''Friday'', ''Sunday'']\<rparr>)]"

text \<open>
  \<^verbatim>\<open>LOTTERY_GAMES\<close> is an object literal, so its prototype is \<^verbatim>\<open>Object.prototype\<close>.
  The operator \<^verbatim>\<open>in\<close> and the property read \<^verbatim>\<open>LOTTERY_GAMES[key]\<close> both walk the
  prototype chain, and so also find the properties every object inherits.
\<close>

definition Object_prototype_keys :: "string list" where
  "Object_prototype_keys =
    [''constructor'', ''__defineGetter__'', ''__defineSetter__'', ''hasOwnProperty'',
     ''__lookupGetter__'', ''__lookupSetter__'', ''isPrototypeOf'', ''propertyIsEnumerable'',
     ''toString'', ''valueOf'', ''__proto__'', ''toLocaleString'']"

text \<open>
  The value of \<^verbatim>\<open>LOTTERY_GAMES[key]\<close>: a game configuration, an inherited member (a
  function, or \<^verbatim>\<open>Object.prototype\<close> itself for \<^verbatim>\<open>__proto__\<close>: truthy, and without the
  fields of a configuration), or \<^verbatim>\<open>undefined\<close>.
\<close>

datatype game_lookup = OwnConfig game_config | Inherited | Undefined

definition key_in_LOTTERY_GAMES :: "string \<Rightarrow> bool" where
  "key_in_LOTTERY_GAMES k \<longleftrightarrow> k \<in> set (map fst LOTTERY_GAMES) \<or> k \<in> set Object_prototype_keys"

definition get_LOTTERY_GAMES :: "string \<Rightarrow> game_lookup" where
  "get_LOTTERY_GAMES k =
    (case map_of LOTTERY_GAMES k of
       Some g \<Rightarrow> OwnConfig g
     | None \<Rightarrow> if k \<in> set Object_prototype_keys then Inherited else Undefined)"

text \<open>\<^verbatim>\<open>gameConfig.numberCount\<close> and \<^verbatim>\<open>gameConfig.maxNumber\<close>; \<open>None\<close> is \<^verbatim>\<open>undefined\<close>.\<close>

fun cfg_numberCount :: "game_lookup \<Rightarrow> nat option" where
  "cfg_numberCount (OwnConfig g) = Some (numberCount g)"
| "cfg_numberCount _ = None"

fun cfg_maxNumber :: "game_lookup \<Rightarrow> nat option" where
  "cfg_maxNumber (OwnConfig g) = Some (maxNumber g)"
| "cfg_maxNumber _ = None"

section \<open>Validator and cleaner (validation.ts)\<close>

record lottery_result_data =
  gameName :: string
  drawDate :: date_input
  numbers :: "jsnumber list"
  jackpot :: "jsnumber option"

text \<open>
  The error and warning messages, one constructor per message, carrying the values the
  message interpolates. The record type decides the \<^verbatim>\<open>typeof\<close> tests and
  \<^verbatim>\<open>Array.isArray\<close>, and \<^verbatim>\<open>new Date\<close> of a \<^verbatim>\<open>Date\<close> or a string does not throw:
  the messages \<^verbatim>\<open>Numbers must be an array\<close> and \<^verbatim>\<open>Invalid draw date\<close> cannot arise
  and have no constructor.
\<close>

datatype validation_error =
    GameNameRequired
  | InvalidGameName string
  | InvalidDrawDateFormat
  | ExpectedNumbers "nat option" nat
  | NotAnInteger nat jsnumber
  | OutOfRange jsnumber nat "nat option"
  | DuplicateNumbers
  | JackpotNotPositive

datatype validation_warning = DateInFuture | DateBefore1995 | NotAscending

record validation_result =
  isValid :: bool
  errors :: "validation_error list"
  warnings :: "validation_warning list"

text \<open>\<^verbatim>\<open>new Date('1995-01-01')\<close>: midnight UTC, 9131 days after the epoch.\<close>

definition date_1995 :: int where
  "date_1995 = 788918400000"

definition gameNameErrors :: "lottery_result_data \<Rightarrow> validation_error list" where
  "gameNameErrors d =
    (if gameName d = [] then [GameNameRequired]
     else if \<not> key_in_LOTTERY_GAMES (gameName d) then [InvalidGameName (gameName d)]
     else [])"

definition drawDateErrors :: "js_runtime \<Rightarrow> lottery_result_data \<Rightarrow> validation_error list" where
  "drawDateErrors rt d =
    (case newDate rt (drawDate d) of None \<Rightarrow> [InvalidDrawDateFormat] | Some t \<Rightarrow> [])"

definition drawDateWarnings :: "js_runtime \<Rightarrow> lottery_result_data \<Rightarrow> validation_warning list" where
  "drawDateWarnings rt d =
    (case newDate rt (drawDate d) of
       None \<Rightarrow> []
     | Some t \<Rightarrow> (if t > rt_now rt then [DateInFuture] else []) @
                 (if t < date_1995 then [DateBefore1995] else []))"

text \<open>The body of the \<^verbatim>\<open>forEach\<close> over the numbers, for one element and its index.\<close>

definition numberError :: "game_lookup \<Rightarrow> nat \<Rightarrow> jsnumber \<Rightarrow> validation_error list" where
  "numberError cfg index num =
    (if num \<notin> \<int> then [NotAnInteger index num]
     else if num < 1 \<or> (case cfg_maxNumber cfg of Some m \<Rightarrow> num > real m | None \<Rightarrow> False)
       then [OutOfRange num index (cfg_maxNumber cfg)]
     else [])"

definition numbersErrors :: "lottery_result_data \<Rightarrow> validation_error list" where
  "numbersErrors d =
    (let cfg = get_LOTTERY_GAMES (gameName d) in
     case cfg of
       Undefined \<Rightarrow> []
     | _ \<Rightarrow>
        (if Some (length (numbers d)) \<noteq> cfg_numberCount cfg
         then [ExpectedNumbers (cfg_numberCount cfg) (length (numbers d))] else []) @
        concat (map (\<lambda>(index, num). numberError cfg index num)
                    (zip [0..<length (numbers d)] (numbers d))) @
        (if length (remdups (numbers d)) \<noteq> length (numbers d) then [DuplicateNumbers] else []))"

definition numbersWarnings :: "lottery_result_data \<Rightarrow> validation_warning list" where
  "numbersWarnings d =
    (case get_LOTTERY_GAMES (gameName d) of
       Undefined \<Rightarrow> []
     | _ \<Rightarrow> if numbers d \<noteq> sort (numbers d) then [NotAscending] else [])"

definition jackpotErrors :: "lottery_result_data \<Rightarrow> validation_error list" where
  "jackpotErrors d =
    (case jackpot d of None \<Rightarrow> [] | Some j \<Rightarrow> if j < 0 then [JackpotNotPositive] else [])"

definition validateLotteryResult :: "js_runtime \<Rightarrow> lottery_result_data \<Rightarrow> validation_result" where
  "validateLotteryResult rt d =
    (let errs = gameNameErrors d @ drawDateErrors rt d @ numbersErrors d @ jackpotErrors d;
         warns = drawDateWarnings rt d @ numbersWarnings d
     in \<lparr>isValid = (length errs = 0), errors = errs, warnings = warns\<rparr>)"

definition cleanLotteryResult :: "js_runtime \<Rightarrow> lottery_result_data \<Rightarrow> lottery_result_data" where
  "cleanLotteryResult rt d =
    \<lparr>gameName = trim (gameName d),
     drawDate = DateObj (newDate rt (drawDate d)),
     numbers = sort (numbers d),
     jackpot = (case jackpot d of
                  None \<Rightarrow> None
                | Some j \<Rightarrow> if j = 0 then None else Some (Math_round (j * 100) / 100))\<rparr>"

text \<open>
  \<^verbatim>\<open>validateLotteryResults\<close>: the \<^verbatim>\<open>forEach\<close> pushes each valid result, cleaned, on
  \<^verbatim>\<open>validResults\<close> and each invalid one, with its validation, on \<^verbatim>\<open>invalidResults\<close>.
  The summary is the four counts (total, valid, invalid, warnings).
\<close>

record validation_batch =
  validResults :: "lottery_result_data list"
  invalidResults :: "(lottery_result_data \<times> validation_result) list"
  totalWarnings :: nat

definition validate_step :: "js_runtime \<Rightarrow> validation_batch \<Rightarrow> lottery_result_data \<Rightarrow> validation_batch" where
  "validate_step rt acc result =
    (let validation = validateLotteryResult rt result in
     if isValid validation
     then acc\<lparr>validResults := validResults acc @ [cleanLotteryResult rt result],
              totalWarnings := totalWarnings acc + length (warnings validation)\<rparr>
     else acc\<lparr>invalidResults := invalidResults acc @ [(result, validation)]\<rparr>)"

definition validateLotteryResults :: "js_runtime \<Rightarrow> lottery_result_data list \<Rightarrow> validation_batch" where
  "validateLotteryResults rt results =
    foldl (validate_step rt) \<lparr>validResults = [], invalidResults = [], totalWarnings = 0\<rparr> results"

definition summary :: "lottery_result_data list \<Rightarrow> validation_batch \<Rightarrow> nat \<times> nat \<times> nat \<times> nat" where
  "summary results b =
    (length results, length (validResults b), length (invalidResults b), totalWarnings b)"

subsection \<open>Duplicate detection\<close>

text \<open>The key \<^verbatim>\<open>`${result.gameName}-${new Date(result.drawDate).toDateString()}`\<close>.\<close>

definition calendarDate :: "js_runtime \<Rightarrow> lottery_result_data \<Rightarrow> string" where
  "calendarDate rt result = rt_toDateString rt (newDate rt (drawDate result))"

definition dupKey :: "js_runtime \<Rightarrow> lottery_result_data \<Rightarrow> string" where
  "dupKey rt result = gameName result @ ''-'' @ calendarDate rt result"

text \<open>
  The \<^verbatim>\<open>Map\<close> \<^verbatim>\<open>seen\<close> keeps its entries in insertion order: an association list.
  \<open>seen_push\<close> is one round of the first \<^verbatim>\<open>forEach\<close>: a missing key is entered with an
  empty group at the end of the map, then the result is pushed on the key's group.
\<close>

fun seen_push :: "string \<Rightarrow> 'a \<Rightarrow> (string \<times> 'a list) list \<Rightarrow> (string \<times> 'a list) list" where
  "seen_push k r [] = [(k, [r])]"
| "seen_push k r ((k', grp) # rest) =
     (if k = k' then (k', grp @ [r]) # rest else (k', grp) # seen_push k r rest)"

definition seen_of :: "js_runtime \<Rightarrow> lottery_result_data list \<Rightarrow> (string \<times> lottery_result_data list) list" where
  "seen_of rt results = foldl (\<lambda>seen result. seen_push (dupKey rt result) result seen) [] results"

definition detectDuplicates :: "js_runtime \<Rightarrow> lottery_result_data list \<Rightarrow> lottery_result_data list list" where
  "detectDuplicates rt results = filter (\<lambda>grp. length grp > 1) (map snd (seen_of rt results))"

text \<open>
  Every conforming \<^verbatim>\<open>toDateString\<close> prints \<^verbatim>\<open>Invalid Date\<close> or weekday, month, day and
  year, with a hyphen only as the sign of a negative year; so no date string continues
  another one after a hyphen. Under this property the composite string key determines the
  game name and the calendar date.
\<close>

definition dateStringsUnambiguous :: "js_runtime \<Rightarrow> bool" where
  "dateStringsUnambiguous rt \<longleftrightarrow>
    (\<forall>t t' s. rt_toDateString rt t \<noteq> s @ ''-'' @ rt_toDateString rt t')"

section \<open>Batch importer (dataImport.ts)\<close>

record import_options =
  skipDuplicates :: bool
  validateData :: bool
  batchSize :: nat

definition DEFAULT_OPTIONS :: import_options where
  "DEFAULT_OPTIONS = \<lparr>skipDuplicates = True, validateData = True, batchSize = 100\<rparr>"

text \<open>
  The entries of \<^verbatim>\<open>errors\<close>: the summary line of the validation
  (\<^verbatim>\<open>N invalid results found\<close>), \<^verbatim>\<open>Game not found: NAME\<close>, and
  \<^verbatim>\<open>Failed to import result for NAME on DATE: MESSAGE\<close>.
\<close>

datatype import_error =
    InvalidResultsFound nat
  | GameNotFound string
  | FailedToImport string date_input string

record import_details =
  total :: nat
  valid :: nat
  invalid :: nat
  duplicates :: nat

text \<open>\<^verbatim>\<open>ImportResult\<close>; its field \<^verbatim>\<open>errors\<close> is \<open>import_errors\<close> here.\<close>

record import_result =
  success :: bool
  imported :: nat
  skipped :: nat
  import_errors :: "import_error list"
  details :: import_details

text \<open>
  The Prisma client is a parameter: the three calls \<^verbatim>\<open>processBatch\<close> makes, over a
  store state \<open>'s\<close>. \<open>Inl message\<close> is a thrown exception with that message;
  \<^verbatim>\<open>lotteryGame.findUnique\<close> yields the game's id or \<^verbatim>\<open>null\<close>,
  \<^verbatim>\<open>lotteryResult.findUnique\<close> yields whether a row exists, and
  \<^verbatim>\<open>lotteryResult.create\<close> yields the new store state.
\<close>

record 's prisma_client =
  lotteryGame_findUnique :: "'s \<Rightarrow> string \<Rightarrow> string + nat option"
  lotteryResult_findUnique :: "'s \<Rightarrow> nat \<Rightarrow> int option \<Rightarrow> string + bool"
  lotteryResult_create ::
    "'s \<Rightarrow> nat \<Rightarrow> int option \<Rightarrow> jsnumber list \<Rightarrow> jsnumber option \<Rightarrow> string + 's"

text \<open>The counters of \<^verbatim>\<open>processBatch\<close>, together with the store they have acted on.\<close>

record 's batch_state =
  bs_store :: 's
  bs_imported :: nat
  bs_skipped :: nat
  bs_errors :: "import_error list"

text \<open>\<^verbatim>\<open>result.jackpot || null\<close>: a zero jackpot is stored as \<^verbatim>\<open>null\<close>.\<close>

definition jackpot_or_null :: "jsnumber option \<Rightarrow> jsnumber option" where
  "jackpot_or_null j = (case j of None \<Rightarrow> None | Some x \<Rightarrow> if x = 0 then None else Some x)"

text \<open>One round of the loop of \<^verbatim>\<open>processBatch\<close>, with its \<^verbatim>\<open>try\<close>/\<^verbatim>\<open>catch\<close>.\<close>

definition processRecord ::
  "js_runtime \<Rightarrow> 's prisma_client \<Rightarrow> import_options \<Rightarrow> 's batch_state \<Rightarrow> lottery_result_data
     \<Rightarrow> 's batch_state" where
  "processRecord rt prisma options acc result =
    (let caught = (\<lambda>msg. acc\<lparr>bs_errors := bs_errors acc @
                      [FailedToImport (gameName result) (drawDate result) msg]\<rparr>);
         date = newDate rt (drawDate result);
         create = (\<lambda>gameId.
           case lotteryResult_create prisma (bs_store acc) gameId date (numbers result)
                  (jackpot_or_null (jackpot result)) of
             Inl msg \<Rightarrow> caught msg
           | Inr store' \<Rightarrow> acc\<lparr>bs_store := store', bs_imported := bs_imported acc + 1\<rparr>)
     in case lotteryGame_findUnique prisma (bs_store acc) (gameName result) of
          Inl msg \<Rightarrow> caught msg
        | Inr None \<Rightarrow> acc\<lparr>bs_errors := bs_errors acc @ [GameNotFound (gameName result)]\<rparr>
        | Inr (Some gameId) \<Rightarrow>
            if skipDuplicates options then
              (case lotteryResult_findUnique prisma (bs_store acc) gameId date of
                 Inl msg \<Rightarrow> caught msg
               | Inr True \<Rightarrow> acc\<lparr>bs_skipped := bs_skipped acc + 1\<rparr>
               | Inr False \<Rightarrow> create gameId)
            else create gameId)"

definition processBatch ::
  "js_runtime \<Rightarrow> 's prisma_client \<Rightarrow> import_options \<Rightarrow> 's \<Rightarrow> lottery_result_data list
     \<Rightarrow> 's batch_state" where
  "processBatch rt prisma options store batch =
    foldl (processRecord rt prisma options)
      \<lparr>bs_store = store, bs_imported = 0, bs_skipped = 0, bs_errors = []\<rparr> batch"

text \<open>
  The loop \<^verbatim>\<open>for (let i = 0; i < validResults.length; i += opts.batchSize)\<close>. With
  \<^verbatim>\<open>batchSize\<close> 0 the source never leaves it; \<open>importLotteryResults\<close> below answers
  \<open>None\<close> in that case and enters the loop only with a positive batch size.
\<close>

function importLoop ::
  "js_runtime \<Rightarrow> 's prisma_client \<Rightarrow> import_options \<Rightarrow> lottery_result_data list \<Rightarrow> nat
     \<Rightarrow> 's batch_state \<Rightarrow> 's batch_state" where
  "importLoop rt prisma opts validRs i acc =
    (if i < length validRs \<and> 0 < batchSize opts then
       (let batch = take (batchSize opts) (drop i validRs);
            batchResult = processBatch rt prisma opts (bs_store acc) batch
        in importLoop rt prisma opts validRs (i + batchSize opts)
             \<lparr>bs_store = bs_store batchResult,
              bs_imported = bs_imported acc + bs_imported batchResult,
              bs_skipped = bs_skipped acc + bs_skipped batchResult,
              bs_errors = bs_errors acc @ bs_errors batchResult\<rparr>)
     else acc)"
  by pat_completeness auto
termination
  by (relation "measure (\<lambda>(rt, prisma, opts, validRs, i, acc). length validRs - i)") auto

declare importLoop.simps [simp del]

text \<open>
  \<^verbatim>\<open>importLotteryResults\<close>, with the options already merged over the defaults. Nothing
  inside its \<^verbatim>\<open>try\<close> block throws for well-typed input (\<^verbatim>\<open>processBatch\<close> catches
  per record), so the model has the normal return only. The result is paired with the
  store after the run; \<open>None\<close> is a run that does not return.
\<close>

definition importLotteryResults ::
  "js_runtime \<Rightarrow> 's prisma_client \<Rightarrow> import_options \<Rightarrow> 's \<Rightarrow> lottery_result_data list
     \<Rightarrow> (import_result \<times> 's) option" where
  "importLotteryResults rt prisma opts store results =
    (let validation = validateLotteryResults rt results;
         validRs = (if validateData opts then validResults validation else results);
         errors0 = (if validateData opts \<and> length (invalidResults validation) > 0
                    then [InvalidResultsFound (length (invalidResults validation))] else [])
     in if batchSize opts = 0 \<and> validRs \<noteq> [] then None
        else
          (let final = importLoop rt prisma opts validRs 0
                         \<lparr>bs_store = store, bs_imported = 0, bs_skipped = 0, bs_errors = errors0\<rparr>
           in Some (\<lparr>success = (length (bs_errors final) = 0),
                      imported = bs_imported final,
                      skipped = bs_skipped final,
                      import_errors = bs_errors final,
                      details = \<lparr>total = length results,
                                 valid = length validRs,
                                 invalid = length results - length validRs,
                                 duplicates = bs_skipped final\<rparr>\<rparr>,
                    bs_store final)))"

text \<open>The entries of \<^verbatim>\<open>errors\<close> that \<^verbatim>\<open>processBatch\<close> writes, one per failed record.\<close>

fun isRecordError :: "import_error \<Rightarrow> bool" where
  "isRecordError (InvalidResultsFound n) = False"
| "isRecordError (GameNotFound g) = True"
| "isRecordError (FailedToImport g d m) = True"

subsection \<open>An in-memory store\<close>

text \<open>
  Modelled from the spec: the persistent store behind the Prisma client (its schema is not
  among the sources). It looks a game up by name, looks a result up by (game id, draw date),
  creates a result row, and enforces uniqueness of (game id, draw date); an invalid date is
  refused.
\<close>

record memory_store =
  ms_games :: "(string \<times> nat) list"
  ms_results :: "(nat \<times> int) list"

definition memory_prisma :: "memory_store prisma_client" where
  "memory_prisma =
    \<lparr>lotteryGame_findUnique = (\<lambda>st gname. Inr (map_of (ms_games st) gname)),
     lotteryResult_findUnique = (\<lambda>st gid date.
        case date of None \<Rightarrow> Inl ''Invalid Date''
        | Some t \<Rightarrow> Inr ((gid, t) \<in> set (ms_results st))),
     lotteryResult_create = (\<lambda>st gid date ns j.
        case date of None \<Rightarrow> Inl ''Invalid Date''
        | Some t \<Rightarrow> if (gid, t) \<in> set (ms_results st) then Inl ''Unique constraint failed''
                    else Inr (st\<lparr>ms_results := ms_results st @ [(gid, t)]\<rparr>))\<rparr>"

section \<open>Statistics engine (data manager)\<close>

text \<open>
  A persisted draw and a persisted game with its draws, as the queries return them: the
  draw date is a valid \<^verbatim>\<open>Date\<close> (its time value), the numbers are the integers of the
  column \<^verbatim>\<open>INTEGER[]\<close>, the jackpot is a decimal or \<^verbatim>\<open>null\<close>.
\<close>

record lottery_result =
  result_drawDate :: int
  result_numbers :: "int list"
  result_jackpot :: "real option"

record lottery_game =
  game_name :: string
  game_maxNumber :: nat
  game_numberCount :: nat
  game_results :: "lottery_result list"

text \<open>
  The object \<^verbatim>\<open>numberFrequency\<close> is the list of its properties in creation order.
  \<open>freq_incr\<close> is \<^verbatim>\<open>numberFrequency[num] = (numberFrequency[num] || 0) + 1\<close>: an
  existing property keeps its place, a new one is created last.
\<close>

fun freq_incr :: "int \<Rightarrow> (int \<times> nat) list \<Rightarrow> (int \<times> nat) list" where
  "freq_incr num [] = [(num, 1)]"
| "freq_incr num ((k, c) # rest) =
     (if num = k then (k, c + 1) # rest else (k, c) # freq_incr num rest)"

definition numberFrequency_of :: "lottery_result list \<Rightarrow> (int \<times> nat) list" where
  "numberFrequency_of results =
    foldl (\<lambda>obj result. foldl (\<lambda>obj num. freq_incr num obj) obj (result_numbers result)) [] results"

text \<open>
  \<^verbatim>\<open>Object.entries\<close> lists the keys that are array indices (the integers from 0 to
  \<open>2^32 - 2\<close>) first, in ascending numeric order, and then the other keys in creation
  order.
\<close>

definition isArrayIndex :: "int \<Rightarrow> bool" where
  "isArrayIndex k \<longleftrightarrow> 0 \<le> k \<and> k < 4294967295"

definition Object_entries :: "(int \<times> nat) list \<Rightarrow> (int \<times> nat) list" where
  "Object_entries obj =
    sort_key fst (filter (\<lambda>(k, c). isArrayIndex k) obj) @ filter (\<lambda>(k, c). \<not> isArrayIndex k) obj"

text \<open>
  \<^verbatim>\<open>.sort(([,a], [,b]) => b - a).map(([num]) => parseInt(num))\<close>: a stable sort by
  descending count, then the keys read back as numbers.
\<close>

definition sortedNumbers_of :: "lottery_result list \<Rightarrow> int list" where
  "sortedNumbers_of results =
    map fst (sort_key (\<lambda>(k, c). - int c) (Object_entries (numberFrequency_of results)))"

record date_range =
  earliest :: "int option"
  latest :: "int option"
  daysCovered :: int

record game_statistics =
  stat_gameName :: string
  totalDraws :: nat
  dateRange :: date_range
  numberFrequency :: "(int \<times> nat) list"
  hotNumbers :: "int list"
  coldNumbers :: "int list"
  averageJackpot :: real
  largestJackpot :: real

definition calculateGameStatistics :: "lottery_game \<Rightarrow> game_statistics" where
  "calculateGameStatistics game =
    (let results = game_results game in
     if length results = 0 then
       \<lparr>stat_gameName = game_name game, totalDraws = 0,
        dateRange = \<lparr>earliest = None, latest = None, daysCovered = 0\<rparr>,
        numberFrequency = [], hotNumbers = [], coldNumbers = [],
        averageJackpot = 0, largestJackpot = 0\<rparr>
     else
       (let dates = sort (map result_drawDate results);
            first = hd dates;
            final = last dates;
            sortedNumbers = sortedNumbers_of results;
            jackpots = filter (\<lambda>j. j > 0)
                         (map (\<lambda>r. case result_jackpot r of None \<Rightarrow> 0 | Some j \<Rightarrow> j) results)
        in \<lparr>stat_gameName = game_name game, totalDraws = length results,
            dateRange = \<lparr>earliest = Some first, latest = Some final,
                          daysCovered = \<lceil>real_of_int (final - first) / (1000 * 60 * 60 * 24)\<rceil>\<rparr>,
            numberFrequency = numberFrequency_of results,
            hotNumbers = take 10 sortedNumbers,
            coldNumbers = rev (drop (length sortedNumbers - 10) sortedNumbers),
            averageJackpot = (if length jackpots > 0
                              then sum_list jackpots / real (length jackpots) else 0),
            largestJackpot = (if length jackpots > 0 then Max (set jackpots) else 0)\<rparr>))"

text \<open>
  How often a number was drawn, and the order the specification words: more frequent
  first, the smaller number first among equally frequent ones.
\<close>

definition drawnNumbers :: "lottery_result list \<Rightarrow> int list" where
  "drawnNumbers results = concat (map result_numbers results)"

definition frequency_of :: "lottery_result list \<Rightarrow> int \<Rightarrow> nat" where
  "frequency_of results n = count_list (drawnNumbers results) n"

definition hotter :: "lottery_result list \<Rightarrow> int \<Rightarrow> int \<Rightarrow> bool" where
  "hotter results a b \<longleftrightarrow>
    frequency_of results a > frequency_of results b \<or>
    (frequency_of results a = frequency_of results b \<and> a < b)"

subsection \<open>Pattern analysis\<close>














section \<open>Example inputs\<close>

text \<open>
  A runtime for the examples, in the UTC time zone: \<^verbatim>\<open>Date.parse\<close> and
  \<^verbatim>\<open>toDateString\<close> are tabulated on the two dates the examples use (any other string
  is taken as unparsable, any other time value prints as an invalid date).
\<close>

definition example_runtime :: js_runtime where
  "example_runtime =
    \<lparr>rt_parse = map_of [(''2025-09-01'', 1756684800000), (''2025-09-02'', 1756771200000)],
     rt_now = 1793664000000,
     rt_toDateString = (\<lambda>t. if t = Some 1756684800000 then ''Mon Sep 01 2025''
                            else if t = Some 1756771200000 then ''Tue Sep 02 2025''
                            else ''Invalid Date'')\<rparr>"

text \<open>A valid draw with unsorted numbers, and Scenario A of the specification (five numbers).\<close>

definition example_draw :: lottery_result_data where
  "example_draw = \<lparr>gameName = ''6/42'', drawDate = DateStr ''2025-09-01'',
     numbers = [15, 1, 23, 42, 35, 28], jackpot = Some 5000000\<rparr>"

definition scenario_A :: lottery_result_data where
  "scenario_A = \<lparr>gameName = ''6/42'', drawDate = DateStr ''2025-09-02'',
     numbers = [1, 2, 3, 4, 5], jackpot = Some 6000000\<rparr>"

text \<open>Scenario D: a second draw of the same game on the same day.\<close>

definition scenario_D :: "lottery_result_data list" where
  "scenario_D =
    [\<lparr>gameName = ''6/42'', drawDate = DateStr ''2025-09-02'',
       numbers = [1, 15, 23, 28, 35, 42], jackpot = None\<rparr>,
     \<lparr>gameName = ''6/42'', drawDate = DateStr ''2025-09-02'',
       numbers = [2, 16, 24, 29, 36, 41], jackpot = None\<rparr>]"



definition toString_draw :: lottery_result_data where
  "toString_draw = \<lparr>gameName = ''toString'', drawDate = DateStr ''2025-09-02'',
     numbers = [1, 2, 3, 4, 5, 6], jackpot = None\<rparr>"

text \<open>A store after seeding (the five games, no results) and a store without games.\<close>

definition seeded_store :: memory_store where
  "seeded_store =
    \<lparr>ms_games = [(''6/42'', 1), (''6/45'', 2), (''6/49'', 3), (''6/55'', 4), (''6/58'', 5)],
     ms_results = []\<rparr>"

definition unseeded_store :: memory_store where
  "unseeded_store = \<lparr>ms_games = [], ms_results = []\<rparr>"

definition unseeded_run :: import_result where
  "unseeded_run =
    \<lparr>success = False, imported = 0, skipped = 0, import_errors = [GameNotFound ''6/42''],
     details = \<lparr>total = 1, valid = 1, invalid = 0, duplicates = 0\<rparr>\<rparr>"

definition rejected_run :: import_result where
  "rejected_run =
    \<lparr>success = False, imported = 0, skipped = 0, import_errors = [InvalidResultsFound 1],
     details = \<lparr>total = 1, valid = 0, invalid = 1, duplicates = 0\<rparr>\<rparr>"

definition duplicate_run :: import_result where
  "duplicate_run =
    \<lparr>success = True, imported = 1, skipped = 1, import_errors = [],
     details = \<lparr>total = 2, valid = 2, invalid = 0, duplicates = 1\<rparr>\<rparr>"

text \<open>Scenario E: a game with the two draws 1..6 and 2, 4, .., 12; and a game with one draw.\<close>

definition scenario_E :: lottery_game where
  "scenario_E =
    \<lparr>game_name = ''6/42'', game_maxNumber = 42, game_numberCount = 6,
     game_results =
       [\<lparr>result_drawDate = 1756771200000, result_numbers = [1, 2, 3, 4, 5, 6],
          result_jackpot = None\<rparr>,
        \<lparr>result_drawDate = 1756684800000, result_numbers = [2, 4, 6, 8, 10, 12],
          result_jackpot = None\<rparr>]\<rparr>"


section \<open>Notions used in the proofs\<close>

text \<open>
  The records of a run that have been accounted for (imported, skipped or failed), and the
  entries of \<^verbatim>\<open>errors\<close> that are not about one record.
\<close>

definition progress :: "'s batch_state \<Rightarrow> nat" where
  "progress acc = bs_imported acc + bs_skipped acc + length (filter isRecordError (bs_errors acc))"

definition summaryLines :: "'s batch_state \<Rightarrow> import_error list" where
  "summaryLines acc = filter (\<lambda>e. \<not> isRecordError e) (bs_errors acc)"

text \<open>The errors of the checks that need a game configuration.\<close>

fun isNumberCheckError :: "validation_error \<Rightarrow> bool" where
  "isNumberCheckError (ExpectedNumbers c n) = True"
| "isNumberCheckError (NotAnInteger i x) = True"
| "isNumberCheckError (OutOfRange x i m) = True"
| "isNumberCheckError DuplicateNumbers = True"
| "isNumberCheckError _ = False"

section \<open>Evaluating the model\<close>

lemmas validate_defs =
  validateLotteryResult_def gameNameErrors_def drawDateErrors_def drawDateWarnings_def
  numbersErrors_def numbersWarnings_def jackpotErrors_def key_in_LOTTERY_GAMES_def
  LOTTERY_GAMES_def get_LOTTERY_GAMES_def numberError_def Object_prototype_keys_def date_1995_def

lemmas clean_defs = cleanLotteryResult_def trim_def isWhiteSpace_def Math_round_def

lemmas import_defs =
  importLotteryResults_def validateLotteryResults_def validate_step_def DEFAULT_OPTIONS_def
  importLoop.simps processBatch_def processRecord_def memory_prisma_def jackpot_or_null_def

lemma validate_example_draw:
  "validateLotteryResult example_runtime example_draw =
     \<lparr>isValid = True, errors = [], warnings = [NotAscending]\<rparr>"
  by (simp add: validate_defs example_runtime_def example_draw_def)

lemma validate_scenario_A:
  "validateLotteryResult example_runtime scenario_A =
     \<lparr>isValid = False, errors = [ExpectedNumbers (Some 6) 5], warnings = []\<rparr>"
  by (simp add: validate_defs example_runtime_def scenario_A_def)

lemma clean_example_draw:
  "cleanLotteryResult example_runtime example_draw =
     \<lparr>gameName = ''6/42'', drawDate = DateObj (Some 1756684800000),
      numbers = [1, 15, 23, 28, 35, 42], jackpot = Some 5000000\<rparr>"
  by (simp add: clean_defs example_runtime_def example_draw_def)

section \<open>Validator and cleaner: properties\<close>

lemma numberError_all:
  assumes "concat (map (\<lambda>(index, num). numberError cfg index num) (zip [0..<length ns] ns)) = []"
    and "n \<in> set ns"
  shows "\<exists>i. numberError cfg i n = []"
proof -
  from assms(2) obtain i where i: "i < length ns" "ns ! i = n"
    by (auto simp: in_set_conv_nth)
  then have "(i, n) \<in> set (zip [0..<length ns] ns)"
    by (force simp: set_zip)
  with assms(1) have "numberError cfg i n = []" by auto
  then show ?thesis by blast
qed

lemma numberError_Nil:
  "numberError (OwnConfig g) i n = [] \<longleftrightarrow> n \<in> \<int> \<and> 1 \<le> n \<and> n \<le> real (maxNumber g)"
  by (auto simp: numberError_def)

text \<open>A valid record names a game of the catalog and satisfies that game's rules.\<close>

lemma valid_numbers:
  assumes "isValid (validateLotteryResult rt d)"
  shows "\<exists>g. map_of LOTTERY_GAMES (gameName d) = Some g \<and> length (numbers d) = numberCount g \<and>
     (\<forall>n\<in>set (numbers d). n \<in> \<int> \<and> 1 \<le> n \<and> n \<le> real (maxNumber g)) \<and> distinct (numbers d)"
proof -
  from assms have ne: "numbersErrors d = []" and ge: "gameNameErrors d = []"
    by (simp_all add: validateLotteryResult_def Let_def)
  from ge have kin: "key_in_LOTTERY_GAMES (gameName d)"
    by (auto simp: gameNameErrors_def split: if_splits)
  show ?thesis
  proof (cases "get_LOTTERY_GAMES (gameName d)")
    case (OwnConfig g)
    then have m: "map_of LOTTERY_GAMES (gameName d) = Some g"
      by (auto simp: get_LOTTERY_GAMES_def split: option.splits if_splits)
    from ne OwnConfig have len: "length (numbers d) = numberCount g"
      and cc: "concat (map (\<lambda>(index, num). numberError (OwnConfig g) index num)
                    (zip [0..<length (numbers d)] (numbers d))) = []"
      and dd: "length (remdups (numbers d)) = length (numbers d)"
      by (auto simp: numbersErrors_def Let_def split: if_splits)
    from dd have "distinct (numbers d)"
      by (metis length_remdups_eq remdups_id_iff_distinct)
    moreover have "\<forall>n\<in>set (numbers d). n \<in> \<int> \<and> 1 \<le> n \<and> n \<le> real (maxNumber g)"
      using numberError_all[OF cc] numberError_Nil by blast
    ultimately show ?thesis using m len by blast
  next
    case Inherited
    with ne show ?thesis
      by (auto simp: numbersErrors_def Let_def split: if_splits)
  next
    case Undefined
    with kin show ?thesis
      by (auto simp: get_LOTTERY_GAMES_def key_in_LOTTERY_GAMES_def map_of_eq_None_iff
               split: option.splits if_splits)
  qed
qed

lemma trim_game_key:
  assumes "map_of LOTTERY_GAMES k = Some g"
  shows "trim k = k"
proof -
  from assms have "k \<in> set (map fst LOTTERY_GAMES)"
    by (force dest: map_of_SomeD)
  then show ?thesis
    by (auto simp: LOTTERY_GAMES_def trim_def isWhiteSpace_def)
qed

text \<open>
  Claim C3. For every candidate record that the validator accepts, the cleaned record is
  a record of a game \<open>g\<close> of the catalog: it has \<open>numberCount g\<close> numbers, each an integer
  from 1 to \<open>maxNumber g\<close>, pairwise distinct and in ascending order. (A number outside
  the model, \<^verbatim>\<open>NaN\<close> or an infinity, fails \<^verbatim>\<open>Number.isInteger\<close>, so no accepted
  record has one.)
\<close>

theorem clean_record_invariants:
  assumes "isValid (validateLotteryResult rt r)"
  shows "\<exists>g. map_of LOTTERY_GAMES (gameName (cleanLotteryResult rt r)) = Some g \<and>
           length (numbers (cleanLotteryResult rt r)) = numberCount g \<and>
           (\<forall>n\<in>set (numbers (cleanLotteryResult rt r)). n \<in> \<int> \<and> 1 \<le> n \<and> n \<le> real (maxNumber g)) \<and>
           distinct (numbers (cleanLotteryResult rt r)) \<and>
           sorted (numbers (cleanLotteryResult rt r))"
proof -
  from valid_numbers[OF assms] obtain g where g: "map_of LOTTERY_GAMES (gameName r) = Some g"
    "length (numbers r) = numberCount g"
    "\<forall>n\<in>set (numbers r). n \<in> \<int> \<and> 1 \<le> n \<and> n \<le> real (maxNumber g)"
    "distinct (numbers r)"
    by blast
  have "gameName (cleanLotteryResult rt r) = gameName r"
    using trim_game_key[OF g(1)] by (simp add: cleanLotteryResult_def)
  moreover have "numbers (cleanLotteryResult rt r) = sort (numbers r)"
    by (simp add: cleanLotteryResult_def)
  ultimately show ?thesis using g by auto
qed

theorem clean_record_invariants_witness:
  "isValid (validateLotteryResult example_runtime example_draw) \<and>
   (\<exists>g. map_of LOTTERY_GAMES (gameName (cleanLotteryResult example_runtime example_draw)) = Some g \<and>
      length (numbers (cleanLotteryResult example_runtime example_draw)) = numberCount g \<and>
      (\<forall>n\<in>set (numbers (cleanLotteryResult example_runtime example_draw)).
          n \<in> \<int> \<and> 1 \<le> n \<and> n \<le> real (maxNumber g)) \<and>
      distinct (numbers (cleanLotteryResult example_runtime example_draw)) \<and>
      sorted (numbers (cleanLotteryResult example_runtime example_draw)))"
proof
  show h: "isValid (validateLotteryResult example_runtime example_draw)"
    by (simp add: validate_example_draw)
  show "\<exists>g. map_of LOTTERY_GAMES (gameName (cleanLotteryResult example_runtime example_draw)) = Some g \<and>
      length (numbers (cleanLotteryResult example_runtime example_draw)) = numberCount g \<and>
      (\<forall>n\<in>set (numbers (cleanLotteryResult example_runtime example_draw)).
          n \<in> \<int> \<and> 1 \<le> n \<and> n \<le> real (maxNumber g)) \<and>
      distinct (numbers (cleanLotteryResult example_runtime example_draw)) \<and>
      sorted (numbers (cleanLotteryResult example_runtime example_draw))"
    by (rule clean_record_invariants[OF h])
qed

text \<open>
  A game name that is neither in the catalog nor a property inherited from
  \<^verbatim>\<open>Object.prototype\<close> is reported as unknown, and none of the checks on the numbers runs.
\<close>

lemma unknown_game_short_circuit:
  assumes "gameName r \<noteq> []" and "map_of LOTTERY_GAMES (gameName r) = None"
    and "gameName r \<notin> set Object_prototype_keys"
  shows "InvalidGameName (gameName r) \<in> set (errors (validateLotteryResult rt r)) \<and>
         \<not> isValid (validateLotteryResult rt r) \<and>
         (\<forall>e\<in>set (errors (validateLotteryResult rt r)). \<not> isNumberCheckError e)"
proof -
  have k: "\<not> key_in_LOTTERY_GAMES (gameName r)"
    using assms(2,3) by (simp add: key_in_LOTTERY_GAMES_def map_of_eq_None_iff)
  have u: "get_LOTTERY_GAMES (gameName r) = Undefined"
    using assms(2,3) by (simp add: get_LOTTERY_GAMES_def)
  have g: "gameNameErrors r = [InvalidGameName (gameName r)]"
    using assms(1) k by (simp add: gameNameErrors_def)
  have n: "numbersErrors r = []"
    using u by (simp add: numbersErrors_def)
  have d: "\<forall>e\<in>set (drawDateErrors rt r). \<not> isNumberCheckError e"
    by (auto simp: drawDateErrors_def split: option.splits)
  have j: "\<forall>e\<in>set (jackpotErrors r). \<not> isNumberCheckError e"
    by (auto simp: jackpotErrors_def split: option.splits)
  show ?thesis
    using g n d j by (auto simp: validateLotteryResult_def Let_def)
qed

text \<open>
  Claim C9. A candidate record whose game name is a non-empty string matching no game
  configuration should get the unknown-game error and none of the errors of the checks on
  the numbers. The code decides "known" with the operator \<^verbatim>\<open>in\<close>, which also finds the
  properties inherited from \<^verbatim>\<open>Object.prototype\<close>: for the name \<^verbatim>\<open>toString\<close> no
  unknown-game error is reported, the inherited function is taken as the configuration, and
  the count check reports \<^verbatim>\<open>Expected undefined numbers, got 6\<close>.
\<close>

theorem unknown_game_toString:
  "map_of LOTTERY_GAMES (gameName toString_draw) = None \<and>
   errors (validateLotteryResult example_runtime toString_draw) = [ExpectedNumbers None 6] \<and>
   InvalidGameName (gameName toString_draw) \<notin> set (errors (validateLotteryResult example_runtime toString_draw))"
  by (simp add: validate_defs example_runtime_def toString_draw_def)

subsection \<open>The jackpot of a cleaned record\<close>








subsection \<open>Cleaning twice\<close>






section \<open>Duplicate detection: properties\<close>

lemma seen_push_map_fst:
  "map fst (seen_push k r seen) = (if k \<in> set (map fst seen) then map fst seen else map fst seen @ [k])"
  by (induction k r seen rule: seen_push.induct) simp_all

lemma seen_push_keys: "set (map fst (seen_push k r seen)) = insert k (set (map fst seen))"
  unfolding seen_push_map_fst by auto

lemma seen_push_distinct: "distinct (map fst seen) \<Longrightarrow> distinct (map fst (seen_push k r seen))"
  unfolding seen_push_map_fst by auto

lemma seen_push_entries:
  "distinct (map fst seen) \<Longrightarrow> (k', g') \<in> set (seen_push k r seen) \<Longrightarrow>
     (k' = k \<and> k \<notin> set (map fst seen) \<and> g' = [r]) \<or>
     (k' \<noteq> k \<and> (k', g') \<in> set seen) \<or>
     (k' = k \<and> (\<exists>g. (k, g) \<in> set seen \<and> g' = g @ [r]))"
proof (induction seen)
  case Nil
  then show ?case by simp
next
  case (Cons a seen)
  obtain ka ga where a: "a = (ka, ga)" by (cases a)
  show ?case
  proof (cases "k = ka")
    case True
    have "ka \<notin> set (map fst seen)" using Cons.prems(1) unfolding a by simp
    then have "\<And>g. (ka, g) \<notin> set seen" by force
    then show ?thesis using Cons.prems(2) True unfolding a by auto
  next
    case False
    from Cons.prems(2) False have "(k', g') = (ka, ga) \<or> (k', g') \<in> set (seen_push k r seen)"
      unfolding a by simp
    then show ?thesis
    proof
      assume "(k', g') = (ka, ga)"
      then show ?thesis using False unfolding a by simp
    next
      assume m: "(k', g') \<in> set (seen_push k r seen)"
      have "distinct (map fst seen)" using Cons.prems(1) by simp
      from Cons.IH[OF this m] show ?thesis using False unfolding a by auto
    qed
  qed
qed


lemma seen_of_snoc: "seen_of rt (xs @ [x]) = seen_push (dupKey rt x) x (seen_of rt xs)"
  by (simp add: seen_of_def)

lemma seen_of_distinct: "distinct (map fst (seen_of rt rs))"
proof (induction rs rule: rev_induct)
  case Nil
  then show ?case by (simp add: seen_of_def)
next
  case (snoc x xs)
  then show ?case by (simp add: seen_of_snoc seen_push_distinct)
qed

lemma seen_of_keys: "set (map fst (seen_of rt rs)) = dupKey rt ` set rs"
proof (induction rs rule: rev_induct)
  case Nil
  then show ?case by (simp add: seen_of_def)
next
  case (snoc x xs)
  then show ?case unfolding seen_of_snoc seen_push_keys by auto
qed

lemma seen_of_groups:
  "(k, g) \<in> set (seen_of rt rs) \<Longrightarrow> g = filter (\<lambda>r. dupKey rt r = k) rs"
proof (induction rs arbitrary: k g rule: rev_induct)
  case Nil
  then show ?case by (simp add: seen_of_def)
next
  case (snoc x xs)
  from snoc.prems consider "k = dupKey rt x" "dupKey rt x \<notin> set (map fst (seen_of rt xs))" "g = [x]"
    | "k \<noteq> dupKey rt x" "(k, g) \<in> set (seen_of rt xs)"
    | g0 where "k = dupKey rt x" "(dupKey rt x, g0) \<in> set (seen_of rt xs)" "g = g0 @ [x]"
    unfolding seen_of_snoc using seen_push_entries[OF seen_of_distinct] by blast
  then show ?case
  proof cases
    case 1
    then have "\<forall>r\<in>set xs. dupKey rt r \<noteq> k" unfolding seen_of_keys by (metis image_eqI)
    then have "filter (\<lambda>r. dupKey rt r = k) xs = []" by (simp add: filter_empty_conv)
    with 1 show ?thesis by simp
  next
    case 2
    then show ?thesis using snoc.IH by auto
  next
    case 3
    then show ?thesis using snoc.IH by auto
  qed
qed

lemma seen_of_has_group:
  assumes "r \<in> set rs"
  shows "(dupKey rt r, filter (\<lambda>x. dupKey rt x = dupKey rt r) rs) \<in> set (seen_of rt rs)"
proof -
  from assms have "dupKey rt r \<in> set (map fst (seen_of rt rs))" unfolding seen_of_keys by blast
  then obtain g where g: "(dupKey rt r, g) \<in> set (seen_of rt rs)" by force
  from seen_of_groups[OF g] g show ?thesis by simp
qed

lemma dupKey_inj:
  assumes u: "dateStringsUnambiguous rt" and k: "dupKey rt a = dupKey rt b"
  shows "gameName a = gameName b \<and> calendarDate rt a = calendarDate rt b"
proof -
  have aux: "g1 = g2 \<and> d1 = d2"
    if e: "g1 @ ''-'' @ d1 = g2 @ ''-'' @ d2" and l: "length g1 \<le> length g2"
      and n: "\<And>s. d1 \<noteq> s @ ''-'' @ d2"
    for g1 g2 d1 d2 :: string
  proof -
    from e l obtain x where x: "g2 = g1 @ x"
      by (metis append_eq_append_conv_if append_take_drop_id)
    with e have e2: "''-'' @ d1 = x @ ''-'' @ d2" by simp
    show ?thesis
    proof (cases x)
      case Nil
      with e2 x show ?thesis by simp
    next
      case (Cons c x')
      with e2 have "d1 = x' @ ''-'' @ d2" by simp
      with n show ?thesis by blast
    qed
  qed
  from k have e: "gameName a @ ''-'' @ calendarDate rt a = gameName b @ ''-'' @ calendarDate rt b"
    by (simp add: dupKey_def)
  have n1: "\<And>s. calendarDate rt a \<noteq> s @ ''-'' @ calendarDate rt b"
    and n2: "\<And>s. calendarDate rt b \<noteq> s @ ''-'' @ calendarDate rt a"
    using u by (auto simp: dateStringsUnambiguous_def calendarDate_def)
  show ?thesis
  proof (cases "length (gameName a) \<le> length (gameName b)")
    case True
    from aux[OF e True n1] show ?thesis .
  next
    case False
    then have "length (gameName b) \<le> length (gameName a)" by simp
    from aux[OF e[symmetric] this n2] show ?thesis by simp
  qed
qed

lemma two_matches:
  assumes "i < length xs" "j < length xs" "i \<noteq> j" "P (xs ! i)" "P (xs ! j)"
  shows "2 \<le> length (filter P xs)"
proof -
  have "{i, j} \<subseteq> {n. n < length xs \<and> P (xs ! n)}" using assms by simp
  then have "card {i, j} \<le> card {n. n < length xs \<and> P (xs ! n)}"
    by (intro card_mono) simp_all
  then show ?thesis using assms(3) by (simp add: length_filter_conv_card)
qed

text \<open>
  Claim C7. Whatever the order of the input list, two records at different positions with
  the same game name and the same draw calendar date are in one group of the result of
  \<open>detectDuplicates\<close>. Every reported group has at least two members; it holds exactly the
  records of one composite key, so its members share that key, and with it (the
  date strings of the runtime being unambiguous) the game name and the calendar date.
\<close>

theorem detectDuplicates_congruence:
  "(\<forall>i j. i < length rs \<and> j < length rs \<and> i \<noteq> j \<and>
       gameName (rs ! i) = gameName (rs ! j) \<and> calendarDate rt (rs ! i) = calendarDate rt (rs ! j) \<longrightarrow>
       (\<exists>g \<in> set (detectDuplicates rt rs). rs ! i \<in> set g \<and> rs ! j \<in> set g)) \<and>
   (\<forall>g \<in> set (detectDuplicates rt rs).
       2 \<le> length g \<and> (\<exists>k. g = filter (\<lambda>r. dupKey rt r = k) rs) \<and>
       (\<forall>a \<in> set g. \<forall>b \<in> set g. dupKey rt a = dupKey rt b \<and>
          (dateStringsUnambiguous rt \<longrightarrow>
             gameName a = gameName b \<and> calendarDate rt a = calendarDate rt b)))"
proof (intro conjI allI impI ballI)
  fix i j
  assume h: "i < length rs \<and> j < length rs \<and> i \<noteq> j \<and>
       gameName (rs ! i) = gameName (rs ! j) \<and> calendarDate rt (rs ! i) = calendarDate rt (rs ! j)"
  let ?k = "dupKey rt (rs ! i)"
  let ?g = "filter (\<lambda>x. dupKey rt x = ?k) rs"
  from h have kj: "dupKey rt (rs ! j) = ?k" by (simp add: dupKey_def)
  from h have mi: "rs ! i \<in> set ?g" and mj: "rs ! j \<in> set ?g" using kj by simp_all
  have "length ?g > 1"
    using two_matches[of i rs j "\<lambda>x. dupKey rt x = ?k"] h kj by simp
  moreover have "?g \<in> set (map snd (seen_of rt rs))"
    using seen_of_has_group[of "rs ! i" rs rt] h by force
  ultimately have "?g \<in> set (detectDuplicates rt rs)" by (simp add: detectDuplicates_def)
  then show "\<exists>g \<in> set (detectDuplicates rt rs). rs ! i \<in> set g \<and> rs ! j \<in> set g"
    using mi mj by blast
next
  fix g assume "g \<in> set (detectDuplicates rt rs)"
  then show "2 \<le> length g" by (auto simp: detectDuplicates_def)
next
  fix g assume "g \<in> set (detectDuplicates rt rs)"
  then obtain k where "(k, g) \<in> set (seen_of rt rs)" by (auto simp: detectDuplicates_def)
  from seen_of_groups[OF this] show "\<exists>k. g = filter (\<lambda>r. dupKey rt r = k) rs" by blast
next
  fix g a b assume "g \<in> set (detectDuplicates rt rs)" and ab: "a \<in> set g" "b \<in> set g"
  then obtain k where "(k, g) \<in> set (seen_of rt rs)" by (auto simp: detectDuplicates_def)
  from seen_of_groups[OF this] ab show "dupKey rt a = dupKey rt b" by simp
next
  fix g a b assume "g \<in> set (detectDuplicates rt rs)" and ab: "a \<in> set g" "b \<in> set g"
    and u: "dateStringsUnambiguous rt"
  then obtain k where "(k, g) \<in> set (seen_of rt rs)" by (auto simp: detectDuplicates_def)
  from seen_of_groups[OF this] ab have "dupKey rt a = dupKey rt b" by simp
  from dupKey_inj[OF u this] show "gameName a = gameName b" "calendarDate rt a = calendarDate rt b" by simp_all
qed

lemma example_runtime_unambiguous: "dateStringsUnambiguous example_runtime"
proof -
  have "CHR ''-'' \<notin> set (rt_toDateString example_runtime t)" for t
    by (simp add: example_runtime_def)
  moreover have "CHR ''-'' \<in> set (s @ ''-'' @ d)" for s d :: string
    by simp
  ultimately show ?thesis
    unfolding dateStringsUnambiguous_def by metis
qed

lemma detectDuplicates_scenario_D: "detectDuplicates example_runtime scenario_D = [scenario_D]"
  by (simp add: detectDuplicates_def seen_of_def dupKey_def calendarDate_def scenario_D_def
        example_runtime_def)

theorem detectDuplicates_congruence_witness:
  "(0 < length scenario_D \<and> 1 < length scenario_D \<and> (0::nat) \<noteq> 1 \<and>
      gameName (scenario_D ! 0) = gameName (scenario_D ! 1) \<and>
      calendarDate example_runtime (scenario_D ! 0) = calendarDate example_runtime (scenario_D ! 1)) \<and>
   dateStringsUnambiguous example_runtime \<and>
   scenario_D \<in> set (detectDuplicates example_runtime scenario_D) \<and>
   (\<exists>g \<in> set (detectDuplicates example_runtime scenario_D).
       scenario_D ! 0 \<in> set g \<and> scenario_D ! 1 \<in> set g) \<and>
   2 \<le> length scenario_D \<and>
   (\<exists>k. scenario_D = filter (\<lambda>r. dupKey example_runtime r = k) scenario_D) \<and>
   dupKey example_runtime (scenario_D ! 0) = dupKey example_runtime (scenario_D ! 1)"
proof -
  have h: "0 < length scenario_D \<and> 1 < length scenario_D \<and> (0::nat) \<noteq> 1 \<and>
      gameName (scenario_D ! 0) = gameName (scenario_D ! 1) \<and>
      calendarDate example_runtime (scenario_D ! 0) = calendarDate example_runtime (scenario_D ! 1)"
    by (simp add: scenario_D_def calendarDate_def)
  have m: "scenario_D \<in> set (detectDuplicates example_runtime scenario_D)"
    by (simp add: detectDuplicates_scenario_D)
  have e: "scenario_D ! 0 \<in> set scenario_D" "scenario_D ! 1 \<in> set scenario_D"
    by (simp_all add: scenario_D_def)
  note u = example_runtime_unambiguous
  note t = detectDuplicates_congruence[of scenario_D example_runtime]
  from t h have "\<exists>g \<in> set (detectDuplicates example_runtime scenario_D).
       scenario_D ! 0 \<in> set g \<and> scenario_D ! 1 \<in> set g"
    by blast
  moreover from t m e have "2 \<le> length scenario_D \<and>
    (\<exists>k. scenario_D = filter (\<lambda>r. dupKey example_runtime r = k) scenario_D) \<and>
    dupKey example_runtime (scenario_D ! 0) = dupKey example_runtime (scenario_D ! 1)"
    by blast
  ultimately show ?thesis
    using h m u by blast
qed

section \<open>Batch importer: properties\<close>

lemma processRecord_progress:
  "progress (processRecord rt prisma opts acc r) = progress acc + 1"
  by (simp add: processRecord_def progress_def Let_def split: sum.splits option.splits bool.splits)

lemma processRecord_errors:
  "\<exists>es. bs_errors (processRecord rt prisma opts acc r) = bs_errors acc @ es \<and> (\<forall>e\<in>set es. isRecordError e)"
  by (simp add: processRecord_def Let_def split: sum.splits option.splits bool.splits)

lemma foldl_processRecord_progress:
  "progress (foldl (processRecord rt prisma opts) acc batch) = progress acc + length batch"
  by (induction batch arbitrary: acc) (simp_all add: processRecord_progress)

lemma foldl_processRecord_errors:
  "\<exists>es. bs_errors (foldl (processRecord rt prisma opts) acc batch) = bs_errors acc @ es \<and> (\<forall>e\<in>set es. isRecordError e)"
proof (induction batch arbitrary: acc)
  case Nil
  then show ?case by simp
next
  case (Cons r batch)
  obtain es1 where e1: "bs_errors (processRecord rt prisma opts acc r) = bs_errors acc @ es1" "\<forall>e\<in>set es1. isRecordError e"
    using processRecord_errors by blast
  obtain es2 where e2: "bs_errors (foldl (processRecord rt prisma opts) (processRecord rt prisma opts acc r) batch)
      = bs_errors (processRecord rt prisma opts acc r) @ es2" "\<forall>e\<in>set es2. isRecordError e"
    using Cons.IH by blast
  have "bs_errors (foldl (processRecord rt prisma opts) acc (r # batch)) = bs_errors acc @ (es1 @ es2)"
    using e1 e2 by simp
  moreover have "\<forall>e\<in>set (es1 @ es2). isRecordError e" using e1 e2 by auto
  ultimately show ?case by blast
qed

lemma processBatch_progress:
  "progress (processBatch rt prisma opts st batch) = length batch"
  by (simp add: processBatch_def foldl_processRecord_progress) (simp add: progress_def)

lemma processBatch_errors:
  "\<forall>e\<in>set (bs_errors (processBatch rt prisma opts st batch)). isRecordError e"
  using foldl_processRecord_errors[of rt prisma opts "\<lparr>bs_store = st, bs_imported = 0, bs_skipped = 0, bs_errors = []\<rparr>" batch]
  by (auto simp: processBatch_def)

lemma importLoop_inv:
  "0 < batchSize opts \<Longrightarrow>
   progress (importLoop rt prisma opts vs i acc) = progress acc + (length vs - i) \<and>
   summaryLines (importLoop rt prisma opts vs i acc) = summaryLines acc"
proof (induction rt prisma opts vs i acc rule: importLoop.induct)
  case (1 rt prisma opts vs i acc)
  show ?case
  proof (cases "i < length vs")
    case False
    then show ?thesis by (simp add: importLoop.simps)
  next
    case True
    let ?batch = "take (batchSize opts) (drop i vs)"
    let ?br = "processBatch rt prisma opts (bs_store acc) ?batch"
    let ?acc' = "\<lparr>bs_store = bs_store ?br,
              bs_imported = bs_imported acc + bs_imported ?br,
              bs_skipped = bs_skipped acc + bs_skipped ?br,
              bs_errors = bs_errors acc @ bs_errors ?br\<rparr>"
    have step: "importLoop rt prisma opts vs i acc = importLoop rt prisma opts vs (i + batchSize opts) ?acc'"
      using True "1.prems" by (subst importLoop.simps) (simp add: Let_def)
    have ih: "progress (importLoop rt prisma opts vs (i + batchSize opts) ?acc') = progress ?acc' + (length vs - (i + batchSize opts))
        \<and> summaryLines (importLoop rt prisma opts vs (i + batchSize opts) ?acc') = summaryLines ?acc'"
      using "1.IH"[of ?batch ?br] True "1.prems" by simp
    have pb: "progress ?br = length ?batch" by (rule processBatch_progress)
    have "progress ?acc' = progress acc + progress ?br" by (simp add: progress_def)
    then have p: "progress ?acc' + (length vs - (i + batchSize opts)) = progress acc + (length vs - i)"
      using pb True by (simp add: min_def)
    have "filter (\<lambda>e. \<not> isRecordError e) (bs_errors ?br) = []"
      using processBatch_errors[of rt prisma opts "bs_store acc" ?batch] by (simp add: filter_empty_conv)
    then have s: "summaryLines ?acc' = summaryLines acc" by (simp add: summaryLines_def)
    show ?thesis unfolding step using ih p s by simp
  qed
qed

lemma validate_fold:
  "validResults (foldl (validate_step rt) acc rs) =
      validResults acc @ map (cleanLotteryResult rt) (filter (\<lambda>r. isValid (validateLotteryResult rt r)) rs) \<and>
   invalidResults (foldl (validate_step rt) acc rs) =
      invalidResults acc @ map (\<lambda>r. (r, validateLotteryResult rt r)) (filter (\<lambda>r. \<not> isValid (validateLotteryResult rt r)) rs)"
  by (induction rs arbitrary: acc) (simp_all add: validate_step_def Let_def)

lemma validResults_eq:
  "validResults (validateLotteryResults rt rs) = map (cleanLotteryResult rt) (filter (\<lambda>r. isValid (validateLotteryResult rt r)) rs)"
  by (simp add: validateLotteryResults_def validate_fold)

lemma invalidResults_eq:
  "invalidResults (validateLotteryResults rt rs) = map (\<lambda>r. (r, validateLotteryResult rt r)) (filter (\<lambda>r. \<not> isValid (validateLotteryResult rt r)) rs)"
  by (simp add: validateLotteryResults_def validate_fold)

lemma valid_invalid_count:
  "length (validResults (validateLotteryResults rt rs)) + length (invalidResults (validateLotteryResults rt rs)) = length rs"
  by (simp add: validResults_eq invalidResults_eq sum_length_filter_compl)


lemma import_run:
  assumes "importLotteryResults rt prisma opts store results = Some (res, store')"
  shows "imported res + skipped res + length (filter isRecordError (import_errors res)) = valid (details res)"
    and "invalid (details res) + valid (details res) = total (details res)"
    and "total (details res) = length results"
    and "filter (\<lambda>e. \<not> isRecordError e) (import_errors res) =
           (if validateData opts \<and> 0 < invalid (details res) then [InvalidResultsFound (invalid (details res))] else [])"
    and "success res \<longleftrightarrow> import_errors res = []"
proof -
  let ?validation = "validateLotteryResults rt results"
  let ?vs = "if validateData opts then validResults ?validation else results"
  let ?e0 = "if validateData opts \<and> length (invalidResults ?validation) > 0
                    then [InvalidResultsFound (length (invalidResults ?validation))] else []"
  let ?acc0 = "\<lparr>bs_store = store, bs_imported = 0, bs_skipped = 0, bs_errors = ?e0\<rparr>"
  let ?final = "importLoop rt prisma opts ?vs 0 ?acc0"
  from assms have nz: "\<not> (batchSize opts = 0 \<and> ?vs \<noteq> [])"
    and res: "res = \<lparr>success = (length (bs_errors ?final) = 0),
                      imported = bs_imported ?final,
                      skipped = bs_skipped ?final,
                      import_errors = bs_errors ?final,
                      details = \<lparr>total = length results,
                                 valid = length ?vs,
                                 invalid = length results - length ?vs,
                                 duplicates = bs_skipped ?final\<rparr>\<rparr>"
    by (auto simp: importLotteryResults_def Let_def split: if_splits)
  have inv: "progress ?final = progress ?acc0 + (length ?vs - 0) \<and> summaryLines ?final = summaryLines ?acc0"
  proof (cases "0 < batchSize opts")
    case True
    then show ?thesis by (rule importLoop_inv)
  next
    case False
    with nz have "?vs = []" by simp
    then show ?thesis by (simp add: importLoop.simps)
  qed
  have p0: "progress ?acc0 = 0" by (simp add: progress_def)
  have le: "length ?vs \<le> length results"
    using valid_invalid_count[of rt results] by (simp split: if_splits)
  have iv: "validateData opts \<Longrightarrow> length results - length ?vs = length (invalidResults ?validation)"
    using valid_invalid_count[of rt results] by simp
  show "imported res + skipped res + length (filter isRecordError (import_errors res)) = valid (details res)"
    using inv p0 by (simp add: res progress_def)
  show "invalid (details res) + valid (details res) = total (details res)"
    using le by (simp add: res)
  show "total (details res) = length results" by (simp add: res)
  show "filter (\<lambda>e. \<not> isRecordError e) (import_errors res) =
           (if validateData opts \<and> 0 < invalid (details res) then [InvalidResultsFound (invalid (details res))] else [])"
  proof (cases "validateData opts")
    case True
    have "summaryLines ?final = ?e0" using inv True by (simp add: summaryLines_def)
    then show ?thesis using iv[OF True] True by (simp add: res summaryLines_def)
  next
    case False
    have "summaryLines ?final = []" using inv False by (simp add: summaryLines_def)
    then show ?thesis using False by (simp add: res summaryLines_def)
  qed
  show "success res \<longleftrightarrow> import_errors res = []" by (simp add: res)
qed

lemma import_default_returns:
  "\<exists>res store'. importLotteryResults rt prisma DEFAULT_OPTIONS store results = Some (res, store')"
  by (simp add: importLotteryResults_def DEFAULT_OPTIONS_def Let_def)

text \<open>
  Claim C1, as the code has it. With the default options, every run returns, the total is
  the number of candidates, and every candidate is counted once: as imported, as skipped, as
  invalid, or as a record whose processing wrote an entry (game not found, or failed to
  import) to \<^verbatim>\<open>errors\<close>.
\<close>

theorem import_accounting:
  "\<exists>res store'. importLotteryResults rt prisma DEFAULT_OPTIONS store results = Some (res, store') \<and>
      total (details res) = length results \<and>
      imported res + skipped res + invalid (details res)
        + length (filter isRecordError (import_errors res)) = total (details res)"
proof -
  obtain res store' where r: "importLotteryResults rt prisma DEFAULT_OPTIONS store results = Some (res, store')"
    using import_default_returns[of rt prisma store results] by blast
  from import_run(1,2,3)[OF r] have "total (details res) = length results \<and>
      imported res + skipped res + invalid (details res)
        + length (filter isRecordError (import_errors res)) = total (details res)" by simp
  with r show ?thesis by blast
qed

lemma unseeded_import:
  "importLotteryResults example_runtime memory_prisma DEFAULT_OPTIONS unseeded_store [example_draw]
     = Some (unseeded_run, unseeded_store)"
  by (simp add: import_defs validate_example_draw clean_example_draw unseeded_store_def
        unseeded_run_def)

theorem import_accounting_witness:
  "\<exists>res store'.
      importLotteryResults example_runtime memory_prisma DEFAULT_OPTIONS seeded_store
        [example_draw, scenario_A, example_draw] = Some (res, store') \<and>
      total (details res) = length [example_draw, scenario_A, example_draw] \<and>
      imported res + skipped res + invalid (details res)
        + length (filter isRecordError (import_errors res)) = total (details res)"
  by (rule import_accounting)

text \<open>
  Claim C1 as stated fails: on a store that does not hold the game, a valid candidate is
  neither imported nor skipped nor invalid.
\<close>

theorem import_accounting_counterexample:
  "importLotteryResults example_runtime memory_prisma DEFAULT_OPTIONS unseeded_store [example_draw]
     = Some (unseeded_run, unseeded_store) \<and>
   imported unseeded_run + skipped unseeded_run + invalid (details unseeded_run)
     \<noteq> total (details unseeded_run)"
  by (simp add: unseeded_import) (simp add: unseeded_run_def)

text \<open>
  Claim C2, as the code has it. For every run that returns: \<open>success\<close> is true exactly when
  \<^verbatim>\<open>errors\<close> is empty, and that is exactly when validation rejected no candidate and
  every valid record was imported or skipped as a duplicate. Duplicates alone leave a run
  successful; a validation rejection puts the summary line into \<^verbatim>\<open>errors\<close> and makes it
  unsuccessful.
\<close>

theorem import_success:
  assumes "importLotteryResults rt prisma opts store results = Some (res, store')"
  shows "(success res \<longleftrightarrow> import_errors res = []) \<and>
         (success res \<longleftrightarrow>
            \<not> (validateData opts \<and> 0 < invalid (details res)) \<and>
            imported res + skipped res = valid (details res))"
proof -
  note r = import_run[OF assms]
  have "import_errors res = [] \<longleftrightarrow>
     filter isRecordError (import_errors res) = [] \<and> filter (\<lambda>e. \<not> isRecordError e) (import_errors res) = []"
    by (auto simp: filter_empty_conv)
  moreover have "filter isRecordError (import_errors res) = [] \<longleftrightarrow> imported res + skipped res = valid (details res)"
    using r(1) by auto
  moreover have "filter (\<lambda>e. \<not> isRecordError e) (import_errors res) = [] \<longleftrightarrow> \<not> (validateData opts \<and> 0 < invalid (details res))"
    using r(4) by simp
  ultimately show ?thesis using r(5) by blast
qed

lemma duplicate_import:
  "importLotteryResults example_runtime memory_prisma DEFAULT_OPTIONS seeded_store
     [example_draw, example_draw]
     = Some (duplicate_run, seeded_store\<lparr>ms_results := [(1, 1756684800000)]\<rparr>)"
  by (simp add: import_defs validate_example_draw clean_example_draw seeded_store_def
        duplicate_run_def)

theorem import_success_witness:
  "importLotteryResults example_runtime memory_prisma DEFAULT_OPTIONS seeded_store
     [example_draw, example_draw]
     = Some (duplicate_run, seeded_store\<lparr>ms_results := [(1, 1756684800000)]\<rparr>) \<and>
   (success duplicate_run \<longleftrightarrow> import_errors duplicate_run = []) \<and>
   (success duplicate_run \<longleftrightarrow>
      \<not> (validateData DEFAULT_OPTIONS \<and> 0 < invalid (details duplicate_run)) \<and>
      imported duplicate_run + skipped duplicate_run = valid (details duplicate_run))"
  using duplicate_import import_success[OF duplicate_import] by blast

text \<open>
  Claim C2 as stated fails: a run whose only rejection is a validation failure (Scenario A,
  five numbers) returns \<open>success = False\<close>, its \<^verbatim>\<open>errors\<close> holding the summary line.
\<close>

theorem import_success_counterexample:
  "importLotteryResults example_runtime memory_prisma DEFAULT_OPTIONS seeded_store [scenario_A]
     = Some (rejected_run, seeded_store) \<and>
   import_errors rejected_run = [InvalidResultsFound 1] \<and>
   \<not> success rejected_run"
  by (simp add: import_defs validate_scenario_A seeded_store_def rejected_run_def)

section \<open>Statistics engine: properties\<close>

lemma freq_incr_keys:
  "map fst (freq_incr n obj) = (if n \<in> set (map fst obj) then map fst obj else map fst obj @ [n])"
  by (induction n obj rule: freq_incr.induct) simp_all

lemma freq_incr_map_of:
  "map_of (freq_incr n obj) k =
     (if k = n then Some (case map_of obj n of None \<Rightarrow> 1 | Some c \<Rightarrow> c + 1) else map_of obj k)"
  by (induction n obj rule: freq_incr.induct) auto

lemma numberFrequency_of_fold: 
  "foldl (\<lambda>obj result. foldl (\<lambda>obj num. freq_incr num obj) obj (result_numbers result)) obj rs
     = foldl (\<lambda>obj num. freq_incr num obj) obj (concat (map result_numbers rs))"
  by (induction rs arbitrary: obj) simp_all

lemma freq_fold_inv:
  "distinct (map fst (foldl (\<lambda>obj num. freq_incr num obj) [] ns)) \<and>
   (\<forall>k. map_of (foldl (\<lambda>obj num. freq_incr num obj) [] ns) k =
      (if k \<in> set ns then Some (count_list ns k) else None))"
proof (induction ns rule: rev_induct)
  case Nil
  then show ?case by simp
next
  case (snoc x xs)
  let ?obj = "foldl (\<lambda>obj num. freq_incr num obj) [] xs"
  from snoc have d: "distinct (map fst ?obj)"
    and m: "\<And>k. map_of ?obj k = (if k \<in> set xs then Some (count_list xs k) else None)" by simp_all
  have "distinct (map fst (freq_incr x ?obj))" using d by (simp add: freq_incr_keys)
  moreover have "\<And>k. map_of (freq_incr x ?obj) k =
      (if k \<in> set (xs @ [x]) then Some (count_list (xs @ [x]) k) else None)"
    by (simp add: freq_incr_map_of m)
  ultimately show ?case by simp
qed

lemma numberFrequency_of_distinct: "distinct (map fst (numberFrequency_of rs))"
  unfolding numberFrequency_of_def numberFrequency_of_fold using freq_fold_inv by blast

lemma numberFrequency_of_lookup:
  "map_of (numberFrequency_of rs) k =
     (if k \<in> set (drawnNumbers rs) then Some (frequency_of rs k) else None)"
  unfolding numberFrequency_of_def numberFrequency_of_fold drawnNumbers_def frequency_of_def
  using freq_fold_inv by blast

lemma numberFrequency_of_keys: "set (map fst (numberFrequency_of rs)) = set (drawnNumbers rs)"
proof -
  have "k \<in> set (map fst (numberFrequency_of rs)) \<longleftrightarrow> k \<in> set (drawnNumbers rs)" for k
    using numberFrequency_of_lookup[of rs k]
    by (metis (full_types) map_of_eq_None_iff option.distinct(1) set_map)
  then show ?thesis by blast
qed

lemma numberFrequency_of_count:
  assumes "(k, c) \<in> set (numberFrequency_of rs)" shows "c = frequency_of rs k"
proof -
  from assms have "map_of (numberFrequency_of rs) k = Some c"
    using numberFrequency_of_distinct by simp
  then show ?thesis using numberFrequency_of_lookup[of rs k] by (simp split: if_splits)
qed

lemma insort_key_stable:
  assumes "sorted_wrt (\<lambda>a b. f a < f b \<or> (f a = f b \<and> R a b)) ys" and "\<forall>y\<in>set ys. R x y"
  shows "sorted_wrt (\<lambda>a b. f a < f b \<or> (f a = f b \<and> R a b)) (insort_key f x ys)"
  using assms
proof (induction ys)
  case Nil
  then show ?case by simp
next
  case (Cons y ys)
  show ?case
  proof (cases "f x \<le> f y")
    case True
    have "\<forall>z\<in>set (y # ys). f x < f z \<or> (f x = f z \<and> R x z)"
    proof
      fix z assume z: "z \<in> set (y # ys)"
      then have "f y \<le> f z" using Cons.prems(1) by auto
      with True have "f x \<le> f z" by simp
      moreover have "R x z" using Cons.prems(2) z by blast
      ultimately show "f x < f z \<or> (f x = f z \<and> R x z)" by auto
    qed
    then show ?thesis using True Cons.prems(1) by simp
  next
    case False
    have "sorted_wrt (\<lambda>a b. f a < f b \<or> (f a = f b \<and> R a b)) (insort_key f x ys)"
      using Cons by simp
    moreover have "\<forall>z\<in>set (insort_key f x ys). f y < f z \<or> (f y = f z \<and> R y z)"
      using False Cons.prems(1) by (auto simp: set_insort_key)
    ultimately show ?thesis using False by simp
  qed
qed

lemma sort_key_stable_wrt:
  "sorted_wrt R xs \<Longrightarrow> sorted_wrt (\<lambda>a b. f a < f b \<or> (f a = f b \<and> R a b)) (sort_key f xs)"
proof (induction xs)
  case Nil
  then show ?case by simp
next
  case (Cons x xs)
  then show ?case by (simp add: insort_key_stable)
qed

lemma sorted_keys_strict:
  assumes "distinct (map fst obj)"
  shows "sorted_wrt (\<lambda>a b. fst a < fst b) (sort_key fst obj)"
proof -
  have "sorted (map fst (sort_key fst obj))" by simp
  moreover have "mset (map fst (sort_key fst obj)) = mset (map fst obj)"
    by simp
  then have "distinct (map fst (sort_key fst obj))"
    using assms by (metis mset_eq_imp_distinct_iff)
  ultimately have "sorted_wrt (<) (map fst (sort_key fst obj))"
    by (simp add: strict_sorted_iff)
  then show ?thesis by (simp add: sorted_wrt_map)
qed

lemma Object_entries_indices:
  assumes "\<forall>k\<in>set (map fst obj). isArrayIndex k"
  shows "Object_entries obj = sort_key fst obj"
proof -
  have "filter (\<lambda>(k, c). isArrayIndex k) obj = obj" using assms by (auto simp: filter_id_conv)
  moreover have "filter (\<lambda>(k, c). \<not> isArrayIndex k) obj = []" using assms by (auto simp: filter_empty_conv)
  ultimately show ?thesis by (simp add: Object_entries_def)
qed

lemma Object_entries_mset: "mset (Object_entries obj) = mset obj"
proof -
  have "(\<lambda>(k, c). \<not> isArrayIndex k) = (\<lambda>x. \<not> (case x of (k, c) \<Rightarrow> isArrayIndex k))" by auto
  then show ?thesis by (simp add: Object_entries_def)
qed

lemma sortedNumbers_mset:
  "mset (sortedNumbers_of rs) = mset (map fst (numberFrequency_of rs))"
  by (simp add: sortedNumbers_of_def Object_entries_mset)

lemma sortedNumbers_distinct: "distinct (sortedNumbers_of rs)"
  using sortedNumbers_mset numberFrequency_of_distinct by (metis mset_eq_imp_distinct_iff)

lemma sortedNumbers_set: "set (sortedNumbers_of rs) = set (drawnNumbers rs)"
  using sortedNumbers_mset numberFrequency_of_keys by (metis mset_eq_setD)

lemma sortedNumbers_length: "length (sortedNumbers_of rs) = card (set (drawnNumbers rs))"
  using sortedNumbers_distinct sortedNumbers_set by (metis distinct_card)

lemma sortedNumbers_sorted:
  assumes "\<forall>n\<in>set (drawnNumbers rs). isArrayIndex n"
  shows "sorted_wrt (hotter rs) (sortedNumbers_of rs)"
proof -
  let ?obj = "numberFrequency_of rs"
  let ?g = "\<lambda>(k, c). - int c"
  have e: "Object_entries ?obj = sort_key fst ?obj"
    using assms by (intro Object_entries_indices) (simp only: numberFrequency_of_keys)
  have s1: "sorted_wrt (\<lambda>a b. fst a < fst b) (sort_key fst ?obj)"
    using numberFrequency_of_distinct by (rule sorted_keys_strict)
  have s2: "sorted_wrt (\<lambda>a b. ?g a < ?g b \<or> (?g a = ?g b \<and> fst a < fst b))
              (sort_key ?g (sort_key fst ?obj))"
    using s1 by (rule sort_key_stable_wrt)
  have mem: "\<And>a. a \<in> set (sort_key ?g (sort_key fst ?obj)) \<Longrightarrow> snd a = frequency_of rs (fst a)"
    using numberFrequency_of_count[of _ _ rs] by (metis prod.collapse set_sort)
  have "sorted_wrt (\<lambda>a b. hotter rs (fst a) (fst b)) (sort_key ?g (sort_key fst ?obj))"
  proof (rule sorted_wrt_mono_rel[OF _ s2])
    fix a b
    assume a: "a \<in> set (sort_key ?g (sort_key fst ?obj))" and b: "b \<in> set (sort_key ?g (sort_key fst ?obj))"
      and l: "?g a < ?g b \<or> (?g a = ?g b \<and> fst a < fst b)"
    from mem[OF a] mem[OF b] l show "hotter rs (fst a) (fst b)"
      by (cases a; cases b) (auto simp: hotter_def)
  qed
  then show ?thesis by (simp add: sortedNumbers_of_def e sorted_wrt_map)
qed

lemma stats_hot_cold:
  assumes "game_results game \<noteq> []"
  shows "hotNumbers (calculateGameStatistics game) = take 10 (sortedNumbers_of (game_results game))"
    and "coldNumbers (calculateGameStatistics game) =
           rev (drop (length (sortedNumbers_of (game_results game)) - 10) (sortedNumbers_of (game_results game)))"
  using assms by (simp_all add: calculateGameStatistics_def Let_def)

text \<open>
  Claim C8. For every non-empty result history of a game (its drawn numbers being lottery
  numbers, hence array indices of the object \<^verbatim>\<open>numberFrequency\<close>), the sequence the code
  sorts holds every drawn number once, ordered by descending frequency and, among equally
  frequent numbers, by ascending value; \<open>hotNumbers\<close> is its first 10 elements and
  \<open>coldNumbers\<close> its last 10 elements, reversed.
\<close>

theorem hot_cold_sorted:
  assumes "game_results game \<noteq> []"
    and "\<forall>n\<in>set (drawnNumbers (game_results game)). isArrayIndex n"
  shows "distinct (sortedNumbers_of (game_results game)) \<and>
         set (sortedNumbers_of (game_results game)) = set (drawnNumbers (game_results game)) \<and>
         sorted_wrt (hotter (game_results game)) (sortedNumbers_of (game_results game)) \<and>
         hotNumbers (calculateGameStatistics game) = take 10 (sortedNumbers_of (game_results game)) \<and>
         coldNumbers (calculateGameStatistics game) =
           rev (drop (length (sortedNumbers_of (game_results game)) - 10)
                  (sortedNumbers_of (game_results game)))"
  using stats_hot_cold[OF assms(1)] sortedNumbers_distinct sortedNumbers_set
    sortedNumbers_sorted[OF assms(2)]
  by blast

lemma scenario_E_drawn:
  "drawnNumbers (game_results scenario_E) = [1, 2, 3, 4, 5, 6, 2, 4, 6, 8, 10, 12]"
  by (simp add: drawnNumbers_def scenario_E_def)

lemma scenario_E_sortedNumbers:
  "sortedNumbers_of (game_results scenario_E) = [2, 4, 6, 1, 3, 5, 8, 10, 12]"
  by (simp add: sortedNumbers_of_def numberFrequency_of_def Object_entries_def isArrayIndex_def
        scenario_E_def)

theorem hot_cold_sorted_witness:
  "game_results scenario_E \<noteq> [] \<and>
   list_all isArrayIndex (drawnNumbers (game_results scenario_E)) \<and>
   sorted_wrt (hotter (game_results scenario_E)) [2, 4, 6, 1, 3, 5, 8, 10, 12] \<and>
   hotNumbers (calculateGameStatistics scenario_E) = [2, 4, 6, 1, 3, 5, 8, 10, 12] \<and>
   coldNumbers (calculateGameStatistics scenario_E) = [12, 10, 8, 5, 3, 1, 6, 4, 2]"
proof -
  have h1: "game_results scenario_E \<noteq> []"
    by (simp add: scenario_E_def)
  have h2: "\<forall>n\<in>set (drawnNumbers (game_results scenario_E)). isArrayIndex n"
    by (simp add: scenario_E_drawn isArrayIndex_def)
  show ?thesis
    using h1 h2 hot_cold_sorted[OF h1 h2] by (simp add: scenario_E_sortedNumbers list_all_iff)
qed

text \<open>
  Claim C10. For every non-empty result history: when at most 10 distinct numbers have been
  drawn, \<open>hotNumbers\<close> and \<open>coldNumbers\<close> hold exactly the drawn numbers, \<open>coldNumbers\<close>
  being \<open>hotNumbers\<close> reversed; and when some, but fewer than 20, distinct numbers have
  been drawn, the two lists have a number in common.
\<close>

theorem hot_cold_overlap:
  assumes "game_results game \<noteq> []"
  shows "(card (set (drawnNumbers (game_results game))) \<le> 10 \<longrightarrow>
            coldNumbers (calculateGameStatistics game) = rev (hotNumbers (calculateGameStatistics game)) \<and>
            set (hotNumbers (calculateGameStatistics game)) = set (drawnNumbers (game_results game)) \<and>
            set (coldNumbers (calculateGameStatistics game)) = set (drawnNumbers (game_results game))) \<and>
         (drawnNumbers (game_results game) \<noteq> [] \<and> card (set (drawnNumbers (game_results game))) < 20 \<longrightarrow>
            set (hotNumbers (calculateGameStatistics game)) \<inter> set (coldNumbers (calculateGameStatistics game)) \<noteq> {})"
proof -
  let ?rs = "game_results game"
  let ?s = "sortedNumbers_of ?rs"
  note hc = stats_hot_cold[OF assms]
  have len: "length ?s = card (set (drawnNumbers ?rs))" by (rule sortedNumbers_length)
  have p1: "coldNumbers (calculateGameStatistics game) = rev (hotNumbers (calculateGameStatistics game)) \<and>
            set (hotNumbers (calculateGameStatistics game)) = set (drawnNumbers ?rs) \<and>
            set (coldNumbers (calculateGameStatistics game)) = set (drawnNumbers ?rs)"
    if "card (set (drawnNumbers ?rs)) \<le> 10"
    using that len hc sortedNumbers_set[of ?rs] by simp
  have p2: "set (hotNumbers (calculateGameStatistics game)) \<inter> set (coldNumbers (calculateGameStatistics game)) \<noteq> {}"
    if ne: "drawnNumbers ?rs \<noteq> []" and lt: "card (set (drawnNumbers ?rs)) < 20"
  proof -
    have pos: "0 < length ?s" using ne len by (simp add: card_gt_0_iff)
    let ?i = "length ?s - 10"
    have i1: "?i < length ?s" using pos by simp
    have i2: "?i < 10" using lt len by simp
    have "?s ! ?i \<in> set (take 10 ?s)" using i1 i2 by (metis in_set_conv_nth length_take min_less_iff_conj nth_take)
    moreover have "?s ! ?i \<in> set (drop ?i ?s)" using i1 by (metis Cons_nth_drop_Suc list.set_intros(1))
    ultimately show ?thesis using hc by auto
  qed
  from p1 p2 show ?thesis by blast
qed

theorem hot_cold_overlap_witness:
  "game_results scenario_E \<noteq> [] \<and>
   card (set (drawnNumbers (game_results scenario_E))) \<le> 10 \<and>
   drawnNumbers (game_results scenario_E) \<noteq> [] \<and>
   card (set (drawnNumbers (game_results scenario_E))) < 20 \<and>
   coldNumbers (calculateGameStatistics scenario_E) = rev (hotNumbers (calculateGameStatistics scenario_E)) \<and>
   set (hotNumbers (calculateGameStatistics scenario_E)) = set (drawnNumbers (game_results scenario_E)) \<and>
   set (coldNumbers (calculateGameStatistics scenario_E)) = set (drawnNumbers (game_results scenario_E)) \<and>
   set (hotNumbers (calculateGameStatistics scenario_E))
     \<inter> set (coldNumbers (calculateGameStatistics scenario_E)) \<noteq> {}"
proof -
  have h1: "game_results scenario_E \<noteq> []"
    by (simp add: scenario_E_def)
  have c: "card (set (drawnNumbers (game_results scenario_E))) = 9"
    unfolding scenario_E_drawn List.card_set by simp
  have n: "drawnNumbers (game_results scenario_E) \<noteq> []"
    by (simp add: scenario_E_drawn)
  show ?thesis
    using h1 c n hot_cold_overlap[OF h1] by simp
qed

section \<open>Pattern analysis: properties\<close>











end
